theory Spec2Isabelle
  imports Main
begin

section \<open>Firebase project configuration management (project_config_mgt.py)\<close>

subsection \<open>Python values and exceptions\<close>

text \<open>
  The values the module receives from its callers and from the decoded HTTP responses:
  None, booleans, integers, strings, lists and dicts. A dict is an association list in
  insertion order whose keys are strings, as in a decoded JSON record and in the payload
  that \<open>update_project\<close> builds. Floating point numbers are left out.
\<close>

datatype pyval =
    PNone
  | PBool bool
  | PInt int
  | PStr string
  | PList "pyval list"
  | PDict "(string \<times> pyval) list"

text \<open>Python truthiness, as tested by \<open>if data:\<close> and \<open>not project_id\<close>.\<close>

fun truthy :: "pyval \<Rightarrow> bool" where
  "truthy PNone = False"
| "truthy (PBool b) = b"
| "truthy (PInt i) = (i \<noteq> 0)"
| "truthy (PStr s) = (s \<noteq> [])"
| "truthy (PList xs) = (xs \<noteq> [])"
| "truthy (PDict kvs) = (kvs \<noteq> [])"

text \<open>\<open>isinstance(v, dict)\<close> and \<open>isinstance(v, str)\<close>.\<close>

fun isinstance_dict :: "pyval \<Rightarrow> bool" where
  "isinstance_dict (PDict kvs) = True"
| "isinstance_dict v = False"

fun isinstance_str :: "pyval \<Rightarrow> bool" where
  "isinstance_str (PStr s) = True"
| "isinstance_str v = False"

text \<open>\<open>key in d\<close> and \<open>d.get(key)\<close> (None when the key is missing).\<close>

definition dict_contains :: "(string \<times> pyval) list \<Rightarrow> string \<Rightarrow> bool" where
  "dict_contains d k = (map_of d k \<noteq> None)"

definition dict_get :: "(string \<times> pyval) list \<Rightarrow> string \<Rightarrow> pyval" where
  "dict_get d k = (case map_of d k of None \<Rightarrow> PNone | Some v \<Rightarrow> v)"

text \<open>
  The exceptions the module raises or lets through. A \<open>ValueError\<close> carries the
  message template of its \<open>raise\<close> statement and the arguments given to \<open>format\<close>.
  \<open>ProjectNotFoundError\<close> and \<open>ProjectIdMismatchError\<close> are the two domain errors
  the module re-exports; \<open>FirebaseError\<close> stands for every other backend error and
  \<open>OtherException\<close> for any exception of another class.
\<close>

datatype exc =
    ValueError string "pyval list"
  | ProjectNotFoundError string
  | ProjectIdMismatchError string
  | FirebaseError string
  | OtherException string

fun is_ValueError :: "exc \<Rightarrow> bool" where
  "is_ValueError (ValueError msg args) = True"
| "is_ValueError e = False"

fun is_ProjectNotFoundError :: "exc \<Rightarrow> bool" where
  "is_ProjectNotFoundError (ProjectNotFoundError msg) = True"
| "is_ProjectNotFoundError e = False"

subsection \<open>The Project value object\<close>

record Project =
  Project_data :: "(string \<times> pyval) list"

text \<open>\<open>Project.__init__\<close>: the two checks of the constructor, in the source's order.\<close>

definition Project_init :: "pyval \<Rightarrow> exc + Project" where
  "Project_init data =
     (case data of
        PDict d \<Rightarrow>
          if \<not> dict_contains d ''name''
          then Inl (ValueError ''Project response missing required keys.'' [])
          else Inr \<lparr>Project_data = d\<rparr>
      | _ \<Rightarrow> Inl (ValueError ''Invalid data argument in Project constructor: {0}'' [data]))"

text \<open>The property \<open>project_id\<close>: \<open>self._data.get('name')\<close>.\<close>

definition Project_project_id :: "Project \<Rightarrow> pyval" where
  "Project_project_id self = dict_get (Project_data self) ''name''"

text \<open>
  The property \<open>mfa\<close>. The class \<open>MultiFactorConfig\<close> lives in another module, so its
  constructor is a parameter: it returns the value object or raises. The property is
  written in state-passing style, returning the Project next to the result, so that what
  the read does to the object is part of the model; the source assigns nothing.
\<close>

definition Project_mfa :: "(pyval \<Rightarrow> exc + 'm) \<Rightarrow> Project \<Rightarrow> (exc + 'm option) \<times> Project" where
  "Project_mfa MultiFactorConfig self =
     (let data = dict_get (Project_data self) ''multiFactorConfig'' in
      if truthy data
      then (case MultiFactorConfig data of
              Inl e \<Rightarrow> (Inl e, self)
            | Inr m \<Rightarrow> (Inr (Some m), self))
      else (Inr None, self))"

subsection \<open>The project management service: state and collaborators\<close>

text \<open>
  The application handle: what the service reads from it, its credential and its project
  ID (which a Python application may leave as None).
\<close>

record App =
  app_credential :: string
  app_project_id :: "string option"

record JsonHttpClient =
  credential :: string
  base_url :: string
  headers :: "(string \<times> string) list"

text \<open>The arguments of one call \<open>self.client.body(method, url=..., json=..., params=...)\<close>.\<close>

record request =
  http_method :: string
  url :: string
  json :: "pyval option"
  params :: "string option"

text \<open>
  What a call leaves behind outside the service object, in order: taking and giving
  back \<open>self.lock\<close>, a request handed to the transport, a line written by \<open>print\<close>.
\<close>

datatype event = Acquire | Release | Request request | Print pyval

text \<open>
  Modelled from the spec: the class \<open>auth.Client\<close> is defined in another module. An
  instance is an authentication client scoped to one project ID, built from the
  application handle and that ID; constructing it does nothing beyond setting up the
  object.
\<close>

record Client =
  client_app :: App
  client_project_id :: pyval

text \<open>
  The service object. \<open>project_clients\<close> maps a project ID (the Python value used as
  the dict key) to a reference to a Client object; \<open>heap\<close> is the store of the Client
  objects constructed so far, a reference
  being an index into it, so that two references are the same object exactly when they
  are equal. \<open>events\<close> is the log of what the calls did so far.
\<close>

record ProjectManagementService =
  app :: App
  client :: JsonHttpClient
  project_clients :: "pyval \<rightharpoonup> nat"
  heap :: "Client list"
  events :: "event list"

text \<open>
  The collaborators of other modules are parameters. \<open>body\<close> is the transport: given
  the HTTP client, the log so far and the request, it returns the decoded body, raises a
  \<open>requests.exceptions.RequestException\<close> (of an opaque type \<open>'x\<close>) or raises anything
  else. \<open>handle_auth_backend_error\<close> gives the exception that is raised in place of a
  RequestException. The payload adapter and the MFA validator return a value or raise.
\<close>

datatype 'x outcome = Returns pyval | RaisesRequestException 'x | Raises exc

record 'x collaborators =
  body :: "JsonHttpClient \<Rightarrow> event list \<Rightarrow> request \<Rightarrow> 'x outcome"
  handle_auth_backend_error :: "'x \<Rightarrow> exc"
  convertProjectAuthPayloadToUser :: "pyval \<Rightarrow> exc + pyval"
  validate_mfa_config :: "pyval \<Rightarrow> exc + pyval"

text \<open>
  Modelled from the spec: \<open>_auth_utils.build_update_mask\<close> is defined in another module.
  The mask lists exactly the top-level keys present in the payload, in payload key order.
\<close>

definition build_update_mask :: "(string \<times> pyval) list \<Rightarrow> string list" where
  "build_update_mask payload = map fst payload"

text \<open>\<open>sep.join(xs)\<close> and \<open>d[k] = v\<close>.\<close>

fun str_join :: "string \<Rightarrow> string list \<Rightarrow> string" where
  "str_join sep [] = []"
| "str_join sep [x] = x"
| "str_join sep (x # y # ys) = x @ sep @ str_join sep (y # ys)"

fun dict_set :: "(string \<times> pyval) list \<Rightarrow> string \<Rightarrow> pyval \<Rightarrow> (string \<times> pyval) list" where
  "dict_set [] k v = [(k, v)]"
| "dict_set ((k', v') # d) k v = (if k' = k then (k, v) # d else (k', v') # dict_set d k v)"

subsection \<open>The project management service: operations\<close>

definition PROJECT_CONFIG_MGT_URL :: string where
  "PROJECT_CONFIG_MGT_URL = ''https://identitytoolkit.googleapis.com/admin/v2/projects''"

text \<open>
  \<open>_ProjectManagementService.__init__\<close>. The version string of the package is a
  parameter. \<open>format\<close> renders a project ID that is None as the text \<open>None\<close>.
\<close>

definition ProjectManagementService_init :: "string \<Rightarrow> App \<Rightarrow> ProjectManagementService" where
  "ProjectManagementService_init version a =
     (let cred = app_credential a;
          version_header = ''Python/Admin/'' @ version;
          url0 = PROJECT_CONFIG_MGT_URL @ ''/''
            @ (case app_project_id a of None \<Rightarrow> ''None'' | Some p \<Rightarrow> p) @ ''/config''
      in \<lparr>app = a,
          client = \<lparr>credential = cred, base_url = url0,
                    headers = [(''X-Client-Version'', version_header)]\<rparr>,
          project_clients = Map.empty,
          heap = [],
          events = []\<rparr>)"

text \<open>
  \<open>auth_for_project\<close>: the argument check, then, inside \<open>with self.lock\<close>, the lookup
  and, on a miss, the construction and the insertion. Leaving the \<open>with\<close> block by
  either \<open>return\<close> gives the lock back.
\<close>

definition auth_for_project ::
  "ProjectManagementService \<Rightarrow> pyval \<Rightarrow> (exc + nat) \<times> ProjectManagementService" where
  "auth_for_project self project_id =
     (if \<not> isinstance_str project_id \<or> \<not> truthy project_id
      then (Inl (ValueError
                  ''Invalid project ID: {0}. Project ID must be a non-empty string.''
                  [project_id]), self)
      else
        let s1 = self\<lparr>events := events self @ [Acquire]\<rparr> in
        (case project_clients s1 project_id of
           Some c \<Rightarrow> (Inr c, s1\<lparr>events := events s1 @ [Release]\<rparr>)
         | None \<Rightarrow>
             let c = length (heap s1);
                 s2 = s1\<lparr>heap := heap s1
                         @ [\<lparr>client_app = app s1, client_project_id = project_id\<rparr>]\<rparr>;
                 s3 = s2\<lparr>project_clients := (project_clients s2)(project_id \<mapsto> c)\<rparr>
             in (Inr c, s3\<lparr>events := events s3 @ [Release]\<rparr>)))"

text \<open>The two requests the service makes, as the arguments given to \<open>body\<close>.\<close>

abbreviation get_request :: request where
  "get_request \<equiv> \<lparr>http_method = ''get'', url = [], json = None, params = None\<rparr>"

abbreviation patch_request :: "(string \<times> pyval) list \<Rightarrow> string \<Rightarrow> request" where
  "patch_request payload ps \<equiv>
     \<lparr>http_method = ''patch'', url = [], json = Some (PDict payload), params = Some ps\<rparr>"

text \<open>\<open>get_project\<close>: one read request; on success the adapter, the \<open>print\<close>, the Project.\<close>

definition get_project ::
  "'x collaborators \<Rightarrow> ProjectManagementService \<Rightarrow> (exc + Project) \<times> ProjectManagementService" where
  "get_project env self =
     (let s1 = self\<lparr>events := events self @ [Request get_request]\<rparr> in
      (case body env (client self) (events self) get_request of
         RaisesRequestException error \<Rightarrow> (Inl (handle_auth_backend_error env error), s1)
       | Raises e \<Rightarrow> (Inl e, s1)
       | Returns b \<Rightarrow>
           (case convertProjectAuthPayloadToUser env b of
              Inl e \<Rightarrow> (Inl e, s1)
            | Inr b' \<Rightarrow>
                (let s2 = s1\<lparr>events := events s1 @ [Print b']\<rparr>
                 in (Project_init b', s2)))))"

text \<open>
  \<open>update_project\<close>: the payload, the check that it is not empty, the mask, one patch
  request; on success the adapter and the Project.
\<close>

definition update_project ::
  "'x collaborators \<Rightarrow> ProjectManagementService \<Rightarrow> pyval
     \<Rightarrow> (exc + Project) \<times> ProjectManagementService" where
  "update_project env self mfa =
     (case (if mfa \<noteq> PNone
            then (case validate_mfa_config env mfa of
                    Inl e \<Rightarrow> Inl e
                  | Inr v \<Rightarrow> Inr (dict_set [] ''mfa'' v))
            else Inr []) of
        Inl e \<Rightarrow> (Inl e, self)
      | Inr payload \<Rightarrow>
          if payload = []
          then (Inl (ValueError ''At least one parameter must be specified for update.'' []), self)
          else
            (let update_mask = str_join '','' (build_update_mask payload);
                 ps = ''updateMask='' @ update_mask;
                 s1 = self\<lparr>events := events self @ [Request (patch_request payload ps)]\<rparr>
             in (case body env (client self) (events self) (patch_request payload ps) of
                   RaisesRequestException error \<Rightarrow>
                     (Inl (handle_auth_backend_error env error), s1)
                 | Raises e \<Rightarrow> (Inl e, s1)
                 | Returns b \<Rightarrow>
                     (case convertProjectAuthPayloadToUser env b of
                        Inl e \<Rightarrow> (Inl e, s1)
                      | Inr b' \<Rightarrow> (Project_init b', s1)))))"

text \<open>
  The operations of the service as data, and the state after one of them, so that a
  history of the service is a list of operations run from the state \<open>__init__\<close> builds.
\<close>

datatype op = Auth_for_project pyval | Get_project | Update_project pyval

definition step ::
  "'x collaborators \<Rightarrow> ProjectManagementService \<Rightarrow> op \<Rightarrow> ProjectManagementService" where
  "step env self o' =
     (case o' of
        Auth_for_project project_id \<Rightarrow> snd (auth_for_project self project_id)
      | Get_project \<Rightarrow> snd (get_project env self)
      | Update_project mfa \<Rightarrow> snd (update_project env self mfa))"

text \<open>The requests among the events of a log.\<close>

fun requests_of :: "event list \<Rightarrow> request list" where
  "requests_of [] = []"
| "requests_of (Request r # es) = r # requests_of es"
| "requests_of (e # es) = requests_of es"

text \<open>
  What every operation keeps of the service: the application handle, the Client objects
  already in the store, and the entries already in \<open>project_clients\<close>.
\<close>

definition extends :: "ProjectManagementService \<Rightarrow> ProjectManagementService \<Rightarrow> bool" where
  "extends s s' \<longleftrightarrow>
     app s' = app s \<and> client s' = client s
     \<and> take (length (heap s)) (heap s') = heap s
     \<and> (\<forall>k c. project_clients s k = Some c \<longrightarrow> project_clients s' k = Some c)"

text \<open>
  The invariant of the cache: every entry refers to an object in the store, and that
  object is the client built from the service's application handle and the entry's key.
\<close>

definition service_inv :: "ProjectManagementService \<Rightarrow> bool" where
  "service_inv s \<longleftrightarrow>
     (\<forall>k c. project_clients s k = Some c \<longrightarrow>
        c < length (heap s) \<and> heap s ! c = \<lparr>client_app = app s, client_project_id = k\<rparr>)"

text \<open>
  Stub collaborators, for evaluating the operations on concrete inputs: a transport that
  answers every request with one fixed record, and one that fails every request.
\<close>

definition stub_ok :: "nat collaborators" where
  "stub_ok =
     \<lparr>body = (\<lambda>c h r. Returns (PDict [(''name'', PStr ''projects/p1'')])),
      handle_auth_backend_error = (\<lambda>x. FirebaseError ''backend''),
      convertProjectAuthPayloadToUser = Inr,
      validate_mfa_config = Inr\<rparr>"

definition stub_not_found :: "nat collaborators" where
  "stub_not_found =
     \<lparr>body = (\<lambda>c h r. RaisesRequestException 404),
      handle_auth_backend_error =
        (\<lambda>x. if x = 404 then ProjectNotFoundError ''not found'' else FirebaseError ''backend''),
      convertProjectAuthPayloadToUser = Inr,
      validate_mfa_config = Inr\<rparr>"

subsection \<open>The update mask for any payload\<close>

text \<open>
  The statements of \<open>update_project\<close> from the check \<open>if not payload\<close> on, for any
  payload: what the method does once the payload is built, whatever fields it holds.
\<close>

definition update_project_with_payload ::
  "'x collaborators \<Rightarrow> ProjectManagementService \<Rightarrow> (string \<times> pyval) list
     \<Rightarrow> (exc + Project) \<times> ProjectManagementService" where
  "update_project_with_payload env self payload =
     (if payload = []
      then (Inl (ValueError ''At least one parameter must be specified for update.'' []), self)
      else
        (let update_mask = str_join '','' (build_update_mask payload);
             ps = ''updateMask='' @ update_mask;
             s1 = self\<lparr>events := events self @ [Request (patch_request payload ps)]\<rparr>
         in (case body env (client self) (events self) (patch_request payload ps) of
               RaisesRequestException error \<Rightarrow>
                 (Inl (handle_auth_backend_error env error), s1)
             | Raises e \<Rightarrow> (Inl e, s1)
             | Returns b \<Rightarrow>
                 (case convertProjectAuthPayloadToUser env b of
                    Inl e \<Rightarrow> (Inl e, s1)
                  | Inr b' \<Rightarrow> (Project_init b', s1)))))"

text \<open>
  The mask as the spec words it: the top-level keys of the payload, in payload key
  order, joined with commas. That is the first key, and then every further key with a
  comma put before it.
\<close>

definition spec_update_mask :: "(string \<times> pyval) list \<Rightarrow> string" where
  "spec_update_mask payload =
     (case map fst payload of
        [] \<Rightarrow> []
      | k # ks \<Rightarrow> k @ concat (map (\<lambda>k'. CHR '','' # k') ks))"

text \<open>\<open>s.split(c)\<close> for a one-character separator: the pieces of \<open>s\<close> between the \<open>c\<close>s.\<close>

fun split_on :: "char \<Rightarrow> string \<Rightarrow> string list" where
  "split_on c [] = [[]]"
| "split_on c (x # xs) =
     (if x = c then [] # split_on c xs
      else (case split_on c xs of
              [] \<Rightarrow> [[x]]
            | w # ws \<Rightarrow> (x # w) # ws))"

subsection \<open>Concurrent callers of auth_for_project\<close>

text \<open>
  Several threads inside \<open>auth_for_project\<close> on one service object. Each thread has its
  argument and a program counter, one position per statement of the method: the
  argument check, the entry of \<open>with self.lock\<close>, the lookup, the construction of the
  client, the store into the mapping, and the \<open>return\<close> that leaves the \<open>with\<close> block.
  \<open>Done\<close> holds what the call raised or returned.
\<close>

datatype pc =
    At_check
  | At_acquire
  | At_lookup
  | At_construct
  | At_store nat
  | At_return nat
  | Done "exc + nat"

text \<open>
  \<open>lock\<close> is the state of the \<open>threading.RLock\<close>: free, or held by a thread a number of
  times. Threads are named by their index in \<open>threads\<close>.
\<close>

record config =
  service :: ProjectManagementService
  lock :: "(nat \<times> nat) option"
  threads :: "(pyval \<times> pc) list"

definition set_pc :: "nat \<Rightarrow> pc \<Rightarrow> config \<Rightarrow> config" where
  "set_pc i q c = c\<lparr>threads := (threads c)[i := (fst (threads c ! i), q)]\<rparr>"

text \<open>
  One statement of thread \<open>i\<close>. The result is None when the thread cannot move: it has
  finished, or it waits for a lock that another thread holds. Acquiring a free lock
  takes it; the holder acquiring again goes one level deeper; releasing goes one level
  up and frees the lock at the last level.
\<close>

definition thread_step :: "nat \<Rightarrow> config \<Rightarrow> config option" where
  "thread_step i c =
     (if length (threads c) \<le> i then None
      else
        (let project_id = fst (threads c ! i); self = service c in
         (case snd (threads c ! i) of
            At_check \<Rightarrow>
              if \<not> isinstance_str project_id \<or> \<not> truthy project_id
              then Some (set_pc i (Done (Inl (ValueError
                      ''Invalid project ID: {0}. Project ID must be a non-empty string.''
                      [project_id]))) c)
              else Some (set_pc i At_acquire c)
          | At_acquire \<Rightarrow>
              (case lock c of
                 None \<Rightarrow>
                   Some (set_pc i At_lookup
                     (c\<lparr>lock := Some (i, 1),
                        service := self\<lparr>events := events self @ [Acquire]\<rparr>\<rparr>))
               | Some (owner, n) \<Rightarrow>
                   if owner = i
                   then Some (set_pc i At_lookup
                     (c\<lparr>lock := Some (i, n + 1),
                        service := self\<lparr>events := events self @ [Acquire]\<rparr>\<rparr>))
                   else None)
          | At_lookup \<Rightarrow>
              (case project_clients self project_id of
                 Some cl \<Rightarrow> Some (set_pc i (At_return cl) c)
               | None \<Rightarrow> Some (set_pc i At_construct c))
          | At_construct \<Rightarrow>
              Some (set_pc i (At_store (length (heap self)))
                (c\<lparr>service := self\<lparr>heap := heap self
                     @ [\<lparr>client_app = app self, client_project_id = project_id\<rparr>]\<rparr>\<rparr>))
          | At_store cl \<Rightarrow>
              Some (set_pc i (At_return cl)
                (c\<lparr>service := self\<lparr>project_clients :=
                     (project_clients self)(project_id \<mapsto> cl)\<rparr>\<rparr>))
          | At_return cl \<Rightarrow>
              Some (set_pc i (Done (Inr cl))
                (c\<lparr>lock := (case lock c of
                              None \<Rightarrow> None
                            | Some (owner, n) \<Rightarrow> if 1 < n then Some (owner, n - 1) else None),
                   service := self\<lparr>events := events self @ [Release]\<rparr>\<rparr>))
          | Done r \<Rightarrow> None)))"

text \<open>
  A schedule is the list of the threads the scheduler picks, in order. A picked thread
  that cannot move leaves the configuration as it is.
\<close>

fun exec :: "config \<Rightarrow> nat list \<Rightarrow> config" where
  "exec c [] = c"
| "exec c (i # sched) =
     exec (case thread_step i c of None \<Rightarrow> c | Some c' \<Rightarrow> c') sched"

fun is_Done :: "pc \<Rightarrow> bool" where
  "is_Done (Done r) = True"
| "is_Done q = False"

definition all_done :: "config \<Rightarrow> bool" where
  "all_done c = list_all (\<lambda>t. is_Done (snd t)) (threads c)"

text \<open>The configuration in which \<open>n\<close> threads have just called with the same argument.\<close>

definition start :: "ProjectManagementService \<Rightarrow> pyval \<Rightarrow> nat \<Rightarrow> config" where
  "start s0 project_id n =
     \<lparr>service = s0, lock = None, threads = replicate n (project_id, At_check)\<rparr>"

text \<open>The positions inside the \<open>with\<close> block, and the statements a thread has left at most.\<close>

fun in_with :: "pc \<Rightarrow> bool" where
  "in_with At_lookup = True"
| "in_with At_construct = True"
| "in_with (At_store cl) = True"
| "in_with (At_return cl) = True"
| "in_with q = False"

fun remaining :: "pc \<Rightarrow> nat" where
  "remaining At_check = 6"
| "remaining At_acquire = 5"
| "remaining At_lookup = 4"
| "remaining At_construct = 3"
| "remaining (At_store cl) = 2"
| "remaining (At_return cl) = 1"
| "remaining (Done r) = 0"

definition total_remaining :: "config \<Rightarrow> nat" where
  "total_remaining c = sum_list (map (\<lambda>t. remaining (snd t)) (threads c))"

text \<open>
  The invariant of \<open>n\<close> concurrent calls with the argument \<open>pid\<close>, started on the
  service \<open>s0\<close> that has no entry for \<open>pid\<close>. What a thread's position says about the
  mapping and the store:
\<close>

definition pc_ok :: "ProjectManagementService \<Rightarrow> pyval \<Rightarrow> ProjectManagementService \<Rightarrow> pc \<Rightarrow> bool" where
  "pc_ok s0 pid s q =
     (case q of
        At_lookup \<Rightarrow> project_clients s pid = None \<longrightarrow> heap s = heap s0
      | At_construct \<Rightarrow> project_clients s pid = None \<and> heap s = heap s0
      | At_store cl \<Rightarrow>
          cl = length (heap s0) \<and> project_clients s pid = None
          \<and> heap s = heap s0 @ [\<lparr>client_app = app s0, client_project_id = pid\<rparr>]
      | At_return cl \<Rightarrow>
          cl = length (heap s0) \<and> project_clients s pid = Some cl
          \<and> heap s = heap s0 @ [\<lparr>client_app = app s0, client_project_id = pid\<rparr>]
      | Done r \<Rightarrow>
          r = Inr (length (heap s0)) \<and> project_clients s pid = Some (length (heap s0))
          \<and> heap s = heap s0 @ [\<lparr>client_app = app s0, client_project_id = pid\<rparr>]
      | _ \<Rightarrow> True)"

text \<open>
  The invariant: every thread has the argument \<open>pid\<close> and a position that fits the
  service; the lock is free and no thread is inside the \<open>with\<close> block, or it is held once
  and its holder is the one thread inside; and the service is in one of three stages:
  nothing constructed, the client constructed but not yet stored while the lock is held,
  or the client stored.
\<close>

definition conc_inv :: "ProjectManagementService \<Rightarrow> pyval \<Rightarrow> nat \<Rightarrow> config \<Rightarrow> bool" where
  "conc_inv s0 pid n c \<longleftrightarrow>
     length (threads c) = n
     \<and> app (service c) = app s0
     \<and> (\<forall>i<n. fst (threads c ! i) = pid \<and> pc_ok s0 pid (service c) (snd (threads c ! i)))
     \<and> (case lock c of
          None \<Rightarrow> \<forall>i<n. \<not> in_with (snd (threads c ! i))
        | Some (owner, k) \<Rightarrow>
            k = 1 \<and> owner < n \<and> (\<forall>i<n. in_with (snd (threads c ! i)) \<longleftrightarrow> i = owner))
     \<and> (case project_clients (service c) pid of
          None \<Rightarrow>
            heap (service c) = heap s0
            \<or> (heap (service c) = heap s0 @ [\<lparr>client_app = app s0, client_project_id = pid\<rparr>]
               \<and> lock c \<noteq> None)
        | Some cl \<Rightarrow>
            cl = length (heap s0)
            \<and> heap (service c) = heap s0 @ [\<lparr>client_app = app s0, client_project_id = pid\<rparr>])"

subsection \<open>Properties of the Project value object\<close>

lemma Project_init_dict:
  "Project_init (PDict d) =
     (if dict_contains d ''name'' then Inr \<lparr>Project_data = d\<rparr>
      else Inl (ValueError ''Project response missing required keys.'' []))"
  by (simp add: Project_init_def)

lemma Project_init_not_dict:
  "\<not> isinstance_dict data \<Longrightarrow>
     Project_init data = Inl (ValueError ''Invalid data argument in Project constructor: {0}'' [data])"
  by (cases data) (simp_all add: Project_init_def)

text \<open>
  C6. The Project constructor fails, with a ValueError, exactly when its input is not a
  dict or is a dict without the key \<open>name\<close>. In particular \<open>Project({})\<close> raises a
  ValueError, and from a dict that has the key \<open>name\<close> the constructor returns a Project
  whose \<open>project_id\<close> is the value stored under that key.
\<close>

theorem Project_init_fails_iff:
  "((\<exists>e. Project_init data = Inl e) \<longleftrightarrow>
      (\<not> isinstance_dict data \<or> (\<exists>d. data = PDict d \<and> \<not> dict_contains d ''name'')))
   \<and> (\<forall>e. Project_init data = Inl e \<longrightarrow> is_ValueError e)
   \<and> (\<exists>e. Project_init (PDict []) = Inl e \<and> is_ValueError e)
   \<and> (\<forall>d v. data = PDict d \<and> map_of d ''name'' = Some v \<longrightarrow>
         (\<exists>p. Project_init data = Inr p \<and> Project_data p = d \<and> Project_project_id p = v))"
proof (cases data)
  case (PDict d)
  then show ?thesis
    by (auto simp: Project_init_dict dict_contains_def Project_project_id_def dict_get_def)
qed (simp_all add: Project_init_def dict_contains_def)

theorem Project_init_fails_iff_witness:
  "Project_init (PDict [(''name'', PStr ''projects/p1'')])
     = Inr \<lparr>Project_data = [(''name'', PStr ''projects/p1'')]\<rparr>
   \<and> Project_project_id \<lparr>Project_data = [(''name'', PStr ''projects/p1'')]\<rparr> = PStr ''projects/p1''
   \<and> is_ValueError (ValueError ''Invalid data argument in Project constructor: {0}'' [PInt 7])
   \<and> Project_init (PInt 7)
       = Inl (ValueError ''Invalid data argument in Project constructor: {0}'' [PInt 7])"
  using Project_init_fails_iff [of "PDict [(''name'', PStr ''projects/p1'')]"]
    Project_init_fails_iff [of "PInt 7"]
  by (simp add: Project_init_def dict_contains_def Project_project_id_def dict_get_def)

text \<open>
  C10. The constructor tests only that the key \<open>name\<close> is present, never its value: from
  a dict whose \<open>name\<close> is present but falsy (None, the empty string) construction
  succeeds and \<open>project_id\<close> returns that falsy value.
\<close>

theorem Project_init_falsy_name:
  "map_of d ''name'' = Some v \<Longrightarrow> \<not> truthy v \<Longrightarrow>
     Project_init (PDict d) = Inr \<lparr>Project_data = d\<rparr>
     \<and> Project_project_id \<lparr>Project_data = d\<rparr> = v
     \<and> \<not> truthy (Project_project_id \<lparr>Project_data = d\<rparr>)"
  by (simp add: Project_init_dict dict_contains_def Project_project_id_def dict_get_def)

theorem Project_init_falsy_name_witness:
  "Project_init (PDict [(''name'', PNone)]) = Inr \<lparr>Project_data = [(''name'', PNone)]\<rparr>
   \<and> Project_project_id \<lparr>Project_data = [(''name'', PNone)]\<rparr> = PNone
   \<and> Project_init (PDict [(''name'', PStr [])]) = Inr \<lparr>Project_data = [(''name'', PStr [])]\<rparr>
   \<and> Project_project_id \<lparr>Project_data = [(''name'', PStr [])]\<rparr> = PStr []"
  using Project_init_falsy_name [of "[(''name'', PNone)]" PNone]
    Project_init_falsy_name [of "[(''name'', PStr [])]" "PStr []"]
  by simp

text \<open>
  C7. Reading \<open>mfa\<close> returns None when the field \<open>multiFactorConfig\<close> is missing or
  falsy; otherwise it returns what the \<open>MultiFactorConfig\<close> constructor makes of that
  field (the value object, or the constructor's exception). The Project is the same
  after the read in every case.
\<close>

theorem mfa_reads_multiFactorConfig:
  "(\<not> truthy (dict_get (Project_data p) ''multiFactorConfig'') \<longrightarrow>
       fst (Project_mfa MultiFactorConfig p) = Inr None)
   \<and> (map_of (Project_data p) ''multiFactorConfig'' = None \<longrightarrow>
       fst (Project_mfa MultiFactorConfig p) = Inr None)
   \<and> (\<forall>v m. map_of (Project_data p) ''multiFactorConfig'' = Some v \<and> truthy v
         \<and> MultiFactorConfig v = Inr m \<longrightarrow> fst (Project_mfa MultiFactorConfig p) = Inr (Some m))
   \<and> (\<forall>v e. map_of (Project_data p) ''multiFactorConfig'' = Some v \<and> truthy v
         \<and> MultiFactorConfig v = Inl e \<longrightarrow> fst (Project_mfa MultiFactorConfig p) = Inl e)
   \<and> snd (Project_mfa MultiFactorConfig p) = p"
  by (auto simp: Project_mfa_def dict_get_def Let_def split: sum.splits)

theorem mfa_reads_multiFactorConfig_witness:
  "fst (Project_mfa (\<lambda>v. Inr v :: exc + pyval) \<lparr>Project_data = [(''name'', PStr ''projects/p1'')]\<rparr>)
     = Inr None
   \<and> fst (Project_mfa (\<lambda>v. Inr v :: exc + pyval)
        \<lparr>Project_data = [(''name'', PStr ''projects/p1''), (''multiFactorConfig'', PDict [])]\<rparr>)
     = Inr None
   \<and> fst (Project_mfa (\<lambda>v. Inr v :: exc + pyval)
        \<lparr>Project_data = [(''name'', PStr ''projects/p1''),
           (''multiFactorConfig'', PDict [(''state'', PStr ''ENABLED'')])]\<rparr>)
     = Inr (Some (PDict [(''state'', PStr ''ENABLED'')]))"
  using mfa_reads_multiFactorConfig [of "\<lparr>Project_data = [(''name'', PStr ''projects/p1'')]\<rparr>"
      "\<lambda>v. Inr v :: exc + pyval"]
    mfa_reads_multiFactorConfig [of
      "\<lparr>Project_data = [(''name'', PStr ''projects/p1''), (''multiFactorConfig'', PDict [])]\<rparr>"
      "\<lambda>v. Inr v :: exc + pyval"]
    mfa_reads_multiFactorConfig [of
      "\<lparr>Project_data = [(''name'', PStr ''projects/p1''),
           (''multiFactorConfig'', PDict [(''state'', PStr ''ENABLED'')])]\<rparr>"
      "\<lambda>v. Inr v :: exc + pyval"]
  by (simp add: dict_get_def)
subsection \<open>The operations, case by case\<close>

lemma auth_for_project_invalid:
  "\<not> isinstance_str project_id \<or> \<not> truthy project_id \<Longrightarrow>
     auth_for_project s project_id =
       (Inl (ValueError ''Invalid project ID: {0}. Project ID must be a non-empty string.''
               [project_id]), s)"
  by (simp add: auth_for_project_def)

lemma auth_for_project_hit:
  "isinstance_str project_id \<Longrightarrow> truthy project_id \<Longrightarrow> project_clients s project_id = Some c \<Longrightarrow>
     auth_for_project s project_id = (Inr c, s\<lparr>events := events s @ [Acquire, Release]\<rparr>)"
  by (simp add: auth_for_project_def)

lemma auth_for_project_miss:
  "isinstance_str project_id \<Longrightarrow> truthy project_id \<Longrightarrow> project_clients s project_id = None \<Longrightarrow>
     auth_for_project s project_id =
       (Inr (length (heap s)),
        s\<lparr>heap := heap s @ [\<lparr>client_app = app s, client_project_id = project_id\<rparr>],
          project_clients := (project_clients s)(project_id \<mapsto> length (heap s)),
          events := events s @ [Acquire, Release]\<rparr>)"
  by (simp add: auth_for_project_def Let_def)

lemma get_project_request_exception:
  "body env (client s) (events s) get_request = RaisesRequestException x \<Longrightarrow>
     get_project env s =
       (Inl (handle_auth_backend_error env x), s\<lparr>events := events s @ [Request get_request]\<rparr>)"
  by (simp add: get_project_def)

lemma get_project_raises:
  "body env (client s) (events s) get_request = Raises e \<Longrightarrow>
     get_project env s = (Inl e, s\<lparr>events := events s @ [Request get_request]\<rparr>)"
  by (simp add: get_project_def)

lemma get_project_adapter_raises:
  "body env (client s) (events s) get_request = Returns b \<Longrightarrow>
   convertProjectAuthPayloadToUser env b = Inl e \<Longrightarrow>
     get_project env s = (Inl e, s\<lparr>events := events s @ [Request get_request]\<rparr>)"
  by (simp add: get_project_def)

lemma get_project_returns:
  "body env (client s) (events s) get_request = Returns b \<Longrightarrow>
   convertProjectAuthPayloadToUser env b = Inr b' \<Longrightarrow>
     get_project env s =
       (Project_init b', s\<lparr>events := events s @ [Request get_request, Print b']\<rparr>)"
  by (simp add: get_project_def)

lemma get_project_events:
  "\<exists>ev. snd (get_project env s) = s\<lparr>events := events s @ ev\<rparr> \<and> length (requests_of ev) = 1"
proof (cases "body env (client s) (events s) get_request")
  case (Returns b)
  show ?thesis
  proof (cases "convertProjectAuthPayloadToUser env b")
    case (Inl e)
    have "length (requests_of [Request get_request]) = 1" by simp
    with get_project_adapter_raises [OF Returns Inl] show ?thesis
      by (metis snd_conv)
  next
    case (Inr b')
    have "length (requests_of [Request get_request, Print b']) = 1" by simp
    with get_project_returns [OF Returns Inr] show ?thesis
      by (metis snd_conv)
  qed
next
  case (RaisesRequestException x)
  have "length (requests_of [Request get_request]) = 1" by simp
  with get_project_request_exception [OF RaisesRequestException] show ?thesis
    by (metis snd_conv)
next
  case (Raises e)
  have "length (requests_of [Request get_request]) = 1" by simp
  with get_project_raises [OF Raises] show ?thesis
    by (metis snd_conv)
qed

lemma update_project_None:
  "update_project env s PNone =
     (Inl (ValueError ''At least one parameter must be specified for update.'' []), s)"
  by (simp add: update_project_def)

lemma update_project_invalid:
  "mfa \<noteq> PNone \<Longrightarrow> validate_mfa_config env mfa = Inl e \<Longrightarrow>
     update_project env s mfa = (Inl e, s)"
  by (simp add: update_project_def)

lemma update_project_valid:
  "mfa \<noteq> PNone \<Longrightarrow> validate_mfa_config env mfa = Inr v \<Longrightarrow>
     update_project env s mfa =
       (let s1 = s\<lparr>events := events s @ [Request (patch_request [(''mfa'', v)] ''updateMask=mfa'')]\<rparr>
        in (case body env (client s) (events s) (patch_request [(''mfa'', v)] ''updateMask=mfa'') of
              RaisesRequestException error \<Rightarrow> (Inl (handle_auth_backend_error env error), s1)
            | Raises e \<Rightarrow> (Inl e, s1)
            | Returns b \<Rightarrow>
                (case convertProjectAuthPayloadToUser env b of
                   Inl e \<Rightarrow> (Inl e, s1)
                 | Inr b' \<Rightarrow> (Project_init b', s1))))"
  by (simp add: update_project_def build_update_mask_def Let_def)

lemma update_project_valid_events:
  "mfa \<noteq> PNone \<Longrightarrow> validate_mfa_config env mfa = Inr v \<Longrightarrow>
     snd (update_project env s mfa) =
       s\<lparr>events := events s @ [Request (patch_request [(''mfa'', v)] ''updateMask=mfa'')]\<rparr>"
  by (simp add: update_project_valid Let_def split: outcome.split sum.split)

lemma update_project_events:
  "\<exists>ev. snd (update_project env s mfa) = s\<lparr>events := events s @ ev\<rparr>
        \<and> length (requests_of ev) \<le> 1"
proof (cases "mfa = PNone")
  case True
  have "s = s\<lparr>events := events s @ []\<rparr>" by simp
  moreover have "length (requests_of []) \<le> 1" by simp
  ultimately show ?thesis using True update_project_None [of env s]
    by (metis snd_conv)
next
  case False
  show ?thesis
  proof (cases "validate_mfa_config env mfa")
    case (Inl e)
    have "s = s\<lparr>events := events s @ []\<rparr>" by simp
    moreover have "length (requests_of []) \<le> 1" by simp
    ultimately show ?thesis using update_project_invalid [OF False Inl, of s]
      by (metis snd_conv)
  next
    case (Inr v)
    have "length (requests_of [Request (patch_request [(''mfa'', v)] ''updateMask=mfa'')]) \<le> 1"
      by simp
    with update_project_valid_events [OF False Inr, of s] show ?thesis
      by metis
  qed
qed

lemma requests_of_append: "requests_of (xs @ ys) = requests_of xs @ requests_of ys"
  by (induction xs rule: requests_of.induct) simp_all

subsection \<open>What the operations keep\<close>

lemma extends_refl: "extends s s"
  by (simp add: extends_def)

lemma extends_trans: "extends s t \<Longrightarrow> extends t u \<Longrightarrow> extends s u"
proof -
  assume st: "extends s t" and tu: "extends t u"
  from st have "length (take (length (heap s)) (heap t)) = length (heap s)"
    by (simp add: extends_def)
  then have l1: "length (heap s) \<le> length (heap t)" by simp
  have "take (length (heap s)) (heap u) = take (length (heap s)) (take (length (heap t)) (heap u))"
    using l1 by (simp add: min_def)
  also have "\<dots> = heap s" using st tu by (simp add: extends_def)
  finally have "take (length (heap s)) (heap u) = heap s" .
  with st tu show ?thesis by (simp add: extends_def)
qed

lemma extends_events: "extends s (s\<lparr>events := ev\<rparr>)"
  by (simp add: extends_def)

lemma auth_for_project_extends: "extends s (snd (auth_for_project s project_id))"
proof (cases "isinstance_str project_id \<and> truthy project_id")
  case False
  then show ?thesis by (simp add: auth_for_project_invalid extends_refl)
next
  case True
  show ?thesis
  proof (cases "project_clients s project_id")
    case None
    with True show ?thesis by (simp add: auth_for_project_miss extends_def)
  next
    case (Some c)
    with True show ?thesis by (simp add: auth_for_project_hit extends_def)
  qed
qed

lemma get_project_extends: "extends s (snd (get_project env s))"
proof -
  obtain ev where "snd (get_project env s) = s\<lparr>events := events s @ ev\<rparr>"
    using get_project_events [of env s] by blast
  then show ?thesis by (simp add: extends_events)
qed

lemma update_project_extends: "extends s (snd (update_project env s mfa))"
proof -
  obtain ev where "snd (update_project env s mfa) = s\<lparr>events := events s @ ev\<rparr>"
    using update_project_events [of env s mfa] by blast
  then show ?thesis by (simp add: extends_events)
qed

lemma step_extends: "extends s (step env s x)"
  by (cases x)
    (simp_all add: step_def auth_for_project_extends get_project_extends update_project_extends)

lemma foldl_step_extends: "extends s (foldl (step env) s xs)"
proof (induction xs arbitrary: s)
  case Nil
  show ?case by (simp add: extends_refl)
next
  case (Cons x xs)
  have "extends s (step env s x)" by (rule step_extends)
  moreover have "extends (step env s x) (foldl (step env) (step env s x) xs)" by (rule Cons.IH)
  ultimately show ?case using extends_trans by simp
qed

lemma service_inv_init: "service_inv (ProjectManagementService_init version a)"
  by (simp add: service_inv_def ProjectManagementService_init_def)

lemma service_inv_events: "service_inv s \<Longrightarrow> service_inv (s\<lparr>events := ev\<rparr>)"
  by (simp add: service_inv_def)

lemma auth_for_project_inv:
  assumes "service_inv s"
  shows "service_inv (snd (auth_for_project s project_id))"
proof (cases "isinstance_str project_id \<and> truthy project_id")
  case False
  with assms show ?thesis by (simp add: auth_for_project_invalid)
next
  case True
  show ?thesis
  proof (cases "project_clients s project_id")
    case (Some c)
    with True assms show ?thesis by (simp add: auth_for_project_hit service_inv_events)
  next
    case None
    have "c < Suc (length (heap s))
        \<and> (heap s @ [\<lparr>client_app = app s, client_project_id = project_id\<rparr>]) ! c
            = \<lparr>client_app = app s, client_project_id = k\<rparr>"
      if "((project_clients s)(project_id \<mapsto> length (heap s))) k = Some c" for k c
    proof (cases "k = project_id")
      case True
      with that have "c = length (heap s)" by simp
      with True show ?thesis by simp
    next
      case False
      with that have "project_clients s k = Some c" by simp
      with assms have "c < length (heap s)"
        and "heap s ! c = \<lparr>client_app = app s, client_project_id = k\<rparr>"
        by (simp_all add: service_inv_def)
      then show ?thesis by (simp add: nth_append)
    qed
    with True None show ?thesis
      by (simp add: auth_for_project_miss service_inv_def)
  qed
qed

lemma step_inv: "service_inv s \<Longrightarrow> service_inv (step env s x)"
proof (cases x)
  case (Auth_for_project project_id)
  assume "service_inv s"
  with Auth_for_project show ?thesis by (simp add: step_def auth_for_project_inv)
next
  case Get_project
  assume inv: "service_inv s"
  obtain ev where "snd (get_project env s) = s\<lparr>events := events s @ ev\<rparr>"
    using get_project_events [of env s] by blast
  with Get_project inv show ?thesis by (simp add: step_def service_inv_events)
next
  case (Update_project mfa)
  assume inv: "service_inv s"
  obtain ev where "snd (update_project env s mfa) = s\<lparr>events := events s @ ev\<rparr>"
    using update_project_events [of env s mfa] by blast
  with Update_project inv show ?thesis by (simp add: step_def service_inv_events)
qed

lemma foldl_step_inv: "service_inv s \<Longrightarrow> service_inv (foldl (step env) s xs)"
  by (induction xs arbitrary: s) (simp_all add: step_inv)

lemma reachable_inv:
  "service_inv (foldl (step env) (ProjectManagementService_init version a) xs)"
  by (simp add: foldl_step_inv service_inv_init)

lemma reachable_app:
  "app (foldl (step env) (ProjectManagementService_init version a) xs) = a"
  using foldl_step_extends [of "ProjectManagementService_init version a" env xs]
  by (simp add: extends_def ProjectManagementService_init_def)

lemma auth_for_project_entry:
  assumes "p \<noteq> []"
  shows "\<exists>c. fst (auth_for_project s (PStr p)) = Inr c
           \<and> project_clients (snd (auth_for_project s (PStr p))) (PStr p) = Some c"
proof (cases "project_clients s (PStr p)")
  case None
  with assms show ?thesis by (simp add: auth_for_project_miss)
next
  case (Some c)
  with assms show ?thesis by (simp add: auth_for_project_hit)
qed

lemma auth_for_project_other:
  assumes inv: "service_inv s" and c: "project_clients s (PStr p) = Some c"
    and q: "q \<noteq> []" "q \<noteq> p"
  shows "fst (auth_for_project s (PStr q)) \<noteq> Inr c"
proof (cases "project_clients s (PStr q)")
  case None
  from inv c have "c < length (heap s)" by (simp add: service_inv_def)
  with None q show ?thesis by (simp add: auth_for_project_miss)
next
  case (Some d)
  from inv c have "client_project_id (heap s ! c) = PStr p" by (simp add: service_inv_def)
  moreover from inv Some have "client_project_id (heap s ! d) = PStr q"
    by (simp add: service_inv_def)
  ultimately have "d \<noteq> c" using q by auto
  with Some q show ?thesis by (simp add: auth_for_project_hit)
qed

subsection \<open>Properties of the service\<close>

text \<open>
  C4. When \<open>project_id\<close> is None, the empty string or not a string, \<open>auth_for_project\<close>
  raises the invalid-project-ID ValueError and the service is exactly as before: no lock
  was taken, no request was made, the client mapping is unchanged. For a non-empty
  string it returns a client and raises nothing.
\<close>

theorem auth_for_project_rejects_invalid_id:
  "((project_id = PNone \<or> project_id = PStr [] \<or> \<not> isinstance_str project_id) \<longrightarrow>
      auth_for_project s project_id =
        (Inl (ValueError ''Invalid project ID: {0}. Project ID must be a non-empty string.''
                [project_id]), s))
   \<and> (\<forall>p. p \<noteq> [] \<longrightarrow> (\<exists>c. fst (auth_for_project s (PStr p)) = Inr c))"
proof -
  have "\<exists>c. fst (auth_for_project s (PStr p)) = Inr c" if "p \<noteq> []" for p
    using auth_for_project_entry [OF that, of s] by blast
  moreover have "auth_for_project s project_id =
        (Inl (ValueError ''Invalid project ID: {0}. Project ID must be a non-empty string.''
                [project_id]), s)"
    if "project_id = PNone \<or> project_id = PStr [] \<or> \<not> isinstance_str project_id"
    using that by (intro auth_for_project_invalid) auto
  ultimately show ?thesis by blast
qed

theorem auth_for_project_rejects_invalid_id_witness:
  "auth_for_project (ProjectManagementService_init ''6.0'' \<lparr>app_credential = ''c'', app_project_id = Some ''p0''\<rparr>) (PInt 123)
     = (Inl (ValueError ''Invalid project ID: {0}. Project ID must be a non-empty string.''
               [PInt 123]),
        ProjectManagementService_init ''6.0'' \<lparr>app_credential = ''c'', app_project_id = Some ''p0''\<rparr>)
   \<and> auth_for_project (ProjectManagementService_init ''6.0'' \<lparr>app_credential = ''c'', app_project_id = Some ''p0''\<rparr>) PNone
     = (Inl (ValueError ''Invalid project ID: {0}. Project ID must be a non-empty string.''
               [PNone]),
        ProjectManagementService_init ''6.0'' \<lparr>app_credential = ''c'', app_project_id = Some ''p0''\<rparr>)
   \<and> auth_for_project (ProjectManagementService_init ''6.0'' \<lparr>app_credential = ''c'', app_project_id = Some ''p0''\<rparr>) (PStr [])
     = (Inl (ValueError ''Invalid project ID: {0}. Project ID must be a non-empty string.''
               [PStr []]),
        ProjectManagementService_init ''6.0'' \<lparr>app_credential = ''c'', app_project_id = Some ''p0''\<rparr>)
   \<and> fst (auth_for_project (ProjectManagementService_init ''6.0'' \<lparr>app_credential = ''c'', app_project_id = Some ''p0''\<rparr>) (PStr ''p1''))
     = Inr 0"
  using auth_for_project_rejects_invalid_id [of "PInt 123"
      "ProjectManagementService_init ''6.0'' \<lparr>app_credential = ''c'', app_project_id = Some ''p0''\<rparr>"]
    auth_for_project_rejects_invalid_id [of PNone
      "ProjectManagementService_init ''6.0'' \<lparr>app_credential = ''c'', app_project_id = Some ''p0''\<rparr>"]
    auth_for_project_rejects_invalid_id [of "PStr []"
      "ProjectManagementService_init ''6.0'' \<lparr>app_credential = ''c'', app_project_id = Some ''p0''\<rparr>"]
  by (simp add: auth_for_project_def ProjectManagementService_init_def)

text \<open>
  C3. \<open>update_project\<close> called with no \<open>mfa\<close> (None) raises the ValueError that at least
  one parameter must be specified, and the service is exactly as before: in particular
  no request was handed to the transport.
\<close>

theorem update_project_requires_a_field:
  "update_project env s PNone =
     (Inl (ValueError ''At least one parameter must be specified for update.'' []), s)
   \<and> requests_of (events (snd (update_project env s PNone))) = requests_of (events s)"
  by (simp add: update_project_None)

text \<open>
  C8. Whenever the read succeeds (the transport returns a body and the payload adapter
  converts it), \<open>get_project\<close> prints the converted payload after the request and before
  it constructs the Project: the print is in the log whether or not the constructor then
  accepts the payload, and the result is what the constructor returns.
\<close>

theorem get_project_prints_payload:
  "body env (client s) (events s) get_request = Returns b \<Longrightarrow>
   convertProjectAuthPayloadToUser env b = Inr b' \<Longrightarrow>
     get_project env s =
       (Project_init b', s\<lparr>events := events s @ [Request get_request, Print b']\<rparr>)"
  by (rule get_project_returns)

theorem get_project_prints_payload_witness:
  "get_project stub_ok (ProjectManagementService_init ''6.0'' \<lparr>app_credential = ''c'', app_project_id = Some ''p0''\<rparr>)
     = (Inr \<lparr>Project_data = [(''name'', PStr ''projects/p1'')]\<rparr>,
        (ProjectManagementService_init ''6.0'' \<lparr>app_credential = ''c'', app_project_id = Some ''p0''\<rparr>)
          \<lparr>events := [Request get_request, Print (PDict [(''name'', PStr ''projects/p1'')])]\<rparr>)"
  using get_project_prints_payload [of stub_ok
      "ProjectManagementService_init ''6.0'' \<lparr>app_credential = ''c'', app_project_id = Some ''p0''\<rparr>"
      "PDict [(''name'', PStr ''projects/p1'')]" "PDict [(''name'', PStr ''projects/p1'')]"]
  by (simp add: stub_ok_def ProjectManagementService_init_def Project_init_def dict_contains_def)

subsection \<open>The update mask\<close>

lemma split_on_no_sep: "c \<notin> set k \<Longrightarrow> split_on c k = [k]"
  by (induction k) auto

lemma split_on_append: "c \<notin> set k \<Longrightarrow> split_on c (k @ c # rest) = k # split_on c rest"
  by (induction k) auto

lemma split_on_str_join:
  "ks \<noteq> [] \<Longrightarrow> \<forall>k\<in>set ks. c \<notin> set k \<Longrightarrow> split_on c (str_join [c] ks) = ks"
proof (induction "[c]" ks rule: str_join.induct)
  case 1
  then show ?case by simp
next
  case (2 x)
  then show ?case by (simp add: split_on_no_sep)
next
  case (3 x y ys)
  then show ?case by (simp add: split_on_append)
qed

lemma str_join_commas:
  "str_join '','' (k # ks) = k @ concat (map (\<lambda>k'. CHR '','' # k') ks)"
  by (induction ks arbitrary: k) simp_all

lemma str_join_spec_update_mask:
  "str_join '','' (build_update_mask payload) = spec_update_mask payload"
proof (cases "map fst payload")
  case Nil
  then show ?thesis by (simp add: build_update_mask_def spec_update_mask_def)
next
  case (Cons k ks)
  then show ?thesis
    by (simp add: build_update_mask_def spec_update_mask_def str_join_commas)
qed

lemma update_project_with_payload_events:
  "payload \<noteq> [] \<Longrightarrow>
     snd (update_project_with_payload env s payload) =
       s\<lparr>events := events s @ [Request (patch_request payload
           (''updateMask='' @ str_join '','' (build_update_mask payload)))]\<rparr>"
  by (simp add: update_project_with_payload_def Let_def split: outcome.split sum.split)

lemma update_project_eq_with_payload:
  "mfa \<noteq> PNone \<Longrightarrow> validate_mfa_config env mfa = Inr v \<Longrightarrow>
     update_project env s mfa = update_project_with_payload env s [(''mfa'', v)]"
  by (simp add: update_project_def update_project_with_payload_def)

text \<open>
  C2. \<open>update_project\<close> called with an \<open>mfa\<close> that the validator accepts, giving the
  representation \<open>v\<close>, hands the transport exactly one request: a patch whose query
  parameter is \<open>updateMask=mfa\<close> and whose JSON body is the one-key record with \<open>v\<close>
  under \<open>mfa\<close>; nothing else of the service changes. In general, what the method does
  from its payload on sends, for any non-empty payload, one patch request with that
  payload as its body and the parameter \<open>updateMask=\<close> followed by the mask; the mask is
  the payload's top-level keys in payload order joined with commas, so that splitting it
  at the commas gives back exactly those keys, in that order.
\<close>

theorem update_project_sends_patch:
  "(mfa \<noteq> PNone \<and> validate_mfa_config env mfa = Inr v \<longrightarrow>
      snd (update_project env s mfa) =
        s\<lparr>events := events s @ [Request (patch_request [(''mfa'', v)] ''updateMask=mfa'')]\<rparr>
      \<and> requests_of (events (snd (update_project env s mfa))) =
          requests_of (events s) @ [patch_request [(''mfa'', v)] ''updateMask=mfa'']
      \<and> update_project env s mfa = update_project_with_payload env s [(''mfa'', v)])
   \<and> (payload \<noteq> [] \<longrightarrow>
        snd (update_project_with_payload env s payload) =
          s\<lparr>events := events s @ [Request (patch_request payload
              (''updateMask='' @ str_join '','' (build_update_mask payload)))]\<rparr>)
   \<and> str_join '','' (build_update_mask payload) = spec_update_mask payload
   \<and> (payload \<noteq> [] \<and> (\<forall>k\<in>set (map fst payload). CHR '','' \<notin> set k) \<longrightarrow>
        split_on CHR '','' (str_join '','' (build_update_mask payload)) = map fst payload)
   \<and> str_join '','' (build_update_mask payload) = str_join '','' (map fst payload)
   \<and> ''updateMask='' @ str_join '','' (build_update_mask [(''mfa'', v)]) = ''updateMask=mfa''"
proof -
  have a: "snd (update_project env s mfa) =
        s\<lparr>events := events s @ [Request (patch_request [(''mfa'', v)] ''updateMask=mfa'')]\<rparr>
      \<and> requests_of (events (snd (update_project env s mfa))) =
          requests_of (events s) @ [patch_request [(''mfa'', v)] ''updateMask=mfa'']
      \<and> update_project env s mfa = update_project_with_payload env s [(''mfa'', v)]"
    if "mfa \<noteq> PNone" "validate_mfa_config env mfa = Inr v"
  proof (intro conjI)
    show "snd (update_project env s mfa) =
        s\<lparr>events := events s @ [Request (patch_request [(''mfa'', v)] ''updateMask=mfa'')]\<rparr>"
      using that by (rule update_project_valid_events)
    then show "requests_of (events (snd (update_project env s mfa))) =
          requests_of (events s) @ [patch_request [(''mfa'', v)] ''updateMask=mfa'']"
      by (simp add: requests_of_append)
    show "update_project env s mfa = update_project_with_payload env s [(''mfa'', v)]"
      using that by (rule update_project_eq_with_payload)
  qed
  have b: "snd (update_project_with_payload env s payload) =
          s\<lparr>events := events s @ [Request (patch_request payload
              (''updateMask='' @ str_join '','' (build_update_mask payload)))]\<rparr>"
    if "payload \<noteq> []"
    using that by (rule update_project_with_payload_events)
  have c: "str_join '','' (build_update_mask payload) = spec_update_mask payload"
    by (rule str_join_spec_update_mask)
  have d: "split_on CHR '','' (str_join '','' (build_update_mask payload)) = map fst payload"
    if "payload \<noteq> []" "\<forall>k\<in>set (map fst payload). CHR '','' \<notin> set k"
    using split_on_str_join [of "map fst payload" "CHR '',''"] that
    by (simp add: build_update_mask_def)
  have e: "str_join '','' (build_update_mask payload) = str_join '','' (map fst payload)"
    by (simp add: build_update_mask_def)
  have f: "''updateMask='' @ str_join '','' (build_update_mask [(''mfa'', v)]) = ''updateMask=mfa''"
    by (simp add: build_update_mask_def)
  from a b c d e f show ?thesis by blast
qed

theorem update_project_sends_patch_witness:
  "snd (update_project stub_ok (ProjectManagementService_init ''6.0'' \<lparr>app_credential = ''c'', app_project_id = Some ''p0''\<rparr>)
          (PDict [(''state'', PStr ''ENABLED'')]))
     = (ProjectManagementService_init ''6.0'' \<lparr>app_credential = ''c'', app_project_id = Some ''p0''\<rparr>)
         \<lparr>events := [Request (patch_request [(''mfa'', PDict [(''state'', PStr ''ENABLED'')])]
                                ''updateMask=mfa'')]\<rparr>
   \<and> snd (update_project_with_payload stub_ok
          (ProjectManagementService_init ''6.0'' \<lparr>app_credential = ''c'', app_project_id = Some ''p0''\<rparr>)
          [(''mfa'', PDict [(''state'', PStr ''ENABLED'')]), (''displayName'', PStr ''x''),
           (''smsRegionConfig'', PNone)])
     = (ProjectManagementService_init ''6.0'' \<lparr>app_credential = ''c'', app_project_id = Some ''p0''\<rparr>)
         \<lparr>events := [Request (patch_request
              [(''mfa'', PDict [(''state'', PStr ''ENABLED'')]), (''displayName'', PStr ''x''),
               (''smsRegionConfig'', PNone)]
              ''updateMask=mfa,displayName,smsRegionConfig'')]\<rparr>
   \<and> split_on CHR '','' ''mfa,displayName,smsRegionConfig''
     = [''mfa'', ''displayName'', ''smsRegionConfig'']"
  using update_project_sends_patch [of "PDict [(''state'', PStr ''ENABLED'')]" stub_ok
      "PDict [(''state'', PStr ''ENABLED'')]"
      "ProjectManagementService_init ''6.0'' \<lparr>app_credential = ''c'', app_project_id = Some ''p0''\<rparr>"
      "[(''mfa'', PDict [(''state'', PStr ''ENABLED'')]), (''displayName'', PStr ''x''),
        (''smsRegionConfig'', PNone)]"]
  by (simp add: update_project_def update_project_with_payload_def stub_ok_def
      ProjectManagementService_init_def build_update_mask_def spec_update_mask_def Let_def)

text \<open>
  C5. When the transport raises a RequestException, \<open>get_project\<close> and \<open>update_project\<close>
  both raise what \<open>handle_auth_backend_error\<close> makes of it, after exactly that one
  request; so a failure mapped to ProjectNotFoundError surfaces as ProjectNotFoundError
  from both. An exception of any other class is raised unchanged. No call hands the
  transport more than one request, and no transport failure ends in a returned Project.
\<close>

theorem transport_failure_is_translated:
  "(body env (client s) (events s) get_request = RaisesRequestException x \<longrightarrow>
      get_project env s =
        (Inl (handle_auth_backend_error env x),
         s\<lparr>events := events s @ [Request get_request]\<rparr>)
      \<and> (is_ProjectNotFoundError (handle_auth_backend_error env x) \<longrightarrow>
           (\<exists>e. fst (get_project env s) = Inl e \<and> is_ProjectNotFoundError e)))
   \<and> (mfa \<noteq> PNone \<and> validate_mfa_config env mfa = Inr v
       \<and> body env (client s) (events s) (patch_request [(''mfa'', v)] ''updateMask=mfa'')
           = RaisesRequestException x \<longrightarrow>
      update_project env s mfa =
        (Inl (handle_auth_backend_error env x),
         s\<lparr>events := events s @ [Request (patch_request [(''mfa'', v)] ''updateMask=mfa'')]\<rparr>)
      \<and> (is_ProjectNotFoundError (handle_auth_backend_error env x) \<longrightarrow>
           (\<exists>e. fst (update_project env s mfa) = Inl e \<and> is_ProjectNotFoundError e)))
   \<and> (\<forall>e. body env (client s) (events s) get_request = Raises e \<longrightarrow>
         fst (get_project env s) = Inl e)
   \<and> (\<forall>e. mfa \<noteq> PNone \<and> validate_mfa_config env mfa = Inr v
         \<and> body env (client s) (events s) (patch_request [(''mfa'', v)] ''updateMask=mfa'')
             = Raises e \<longrightarrow>
         fst (update_project env s mfa) = Inl e)
   \<and> length (requests_of (events (snd (get_project env s))))
        = length (requests_of (events s)) + 1
   \<and> length (requests_of (events (snd (update_project env s mfa))))
        \<le> length (requests_of (events s)) + 1"
proof -
  have g: "get_project env s =
        (Inl (handle_auth_backend_error env x),
         s\<lparr>events := events s @ [Request get_request]\<rparr>)"
    if "body env (client s) (events s) get_request = RaisesRequestException x"
    using that by (rule get_project_request_exception)
  have u: "update_project env s mfa =
        (Inl (handle_auth_backend_error env x),
         s\<lparr>events := events s @ [Request (patch_request [(''mfa'', v)] ''updateMask=mfa'')]\<rparr>)"
    if "mfa \<noteq> PNone" "validate_mfa_config env mfa = Inr v"
      "body env (client s) (events s) (patch_request [(''mfa'', v)] ''updateMask=mfa'')
         = RaisesRequestException x"
    using that by (simp add: update_project_valid)
  have gr: "fst (get_project env s) = Inl e"
    if "body env (client s) (events s) get_request = Raises e" for e
    using that by (simp add: get_project_raises)
  have ur: "fst (update_project env s mfa) = Inl e"
    if "mfa \<noteq> PNone" "validate_mfa_config env mfa = Inr v"
      "body env (client s) (events s) (patch_request [(''mfa'', v)] ''updateMask=mfa'') = Raises e"
    for e
    using that by (simp add: update_project_valid)
  obtain ev where ev: "snd (get_project env s) = s\<lparr>events := events s @ ev\<rparr>"
      "length (requests_of ev) = 1"
    using get_project_events [of env s] by blast
  then have gl: "length (requests_of (events (snd (get_project env s))))
        = length (requests_of (events s)) + 1"
    by (simp add: requests_of_append)
  obtain ev' where ev': "snd (update_project env s mfa) = s\<lparr>events := events s @ ev'\<rparr>"
      "length (requests_of ev') \<le> 1"
    using update_project_events [of env s mfa] by blast
  then have ul: "length (requests_of (events (snd (update_project env s mfa))))
        \<le> length (requests_of (events s)) + 1"
    by (simp add: requests_of_append)
  from g u gr ur gl ul show ?thesis by simp
qed

theorem transport_failure_is_translated_witness:
  "get_project stub_not_found (ProjectManagementService_init ''6.0'' \<lparr>app_credential = ''c'', app_project_id = Some ''p0''\<rparr>)
     = (Inl (ProjectNotFoundError ''not found''),
        (ProjectManagementService_init ''6.0'' \<lparr>app_credential = ''c'', app_project_id = Some ''p0''\<rparr>)
          \<lparr>events := [Request get_request]\<rparr>)
   \<and> update_project stub_not_found (ProjectManagementService_init ''6.0'' \<lparr>app_credential = ''c'', app_project_id = Some ''p0''\<rparr>)
        (PDict [(''state'', PStr ''ENABLED'')])
     = (Inl (ProjectNotFoundError ''not found''),
        (ProjectManagementService_init ''6.0'' \<lparr>app_credential = ''c'', app_project_id = Some ''p0''\<rparr>)
          \<lparr>events := [Request (patch_request [(''mfa'', PDict [(''state'', PStr ''ENABLED'')])]
                                 ''updateMask=mfa'')]\<rparr>)"
  using transport_failure_is_translated [of stub_not_found
      "ProjectManagementService_init ''6.0'' \<lparr>app_credential = ''c'', app_project_id = Some ''p0''\<rparr>"
      404 "PDict [(''state'', PStr ''ENABLED'')]" "PDict [(''state'', PStr ''ENABLED'')]"]
  by (simp add: stub_not_found_def ProjectManagementService_init_def)

text \<open>
  C1. In every state the service can reach from \<open>__init__\<close>, a call of
  \<open>auth_for_project\<close> with a non-empty string returns a client and leaves it in the
  mapping under that ID; if the ID was not in the mapping, the client is a newly
  constructed one, scoped to that ID. After any further operations, a call with the same
  ID returns the same client, constructs no client and leaves the mapping as it is, and a
  call with a different non-empty string returns a different client. No operation of the
  service replaces or removes an entry of the mapping.
\<close>

theorem auth_for_project_cached:
  assumes "p \<noteq> []"
    and "s = foldl (step env) (ProjectManagementService_init version a) xs"
    and "r = auth_for_project s (PStr p)"
  shows "\<exists>c. fst r = Inr c
     \<and> project_clients (snd r) (PStr p) = Some c
     \<and> (project_clients s (PStr p) = None \<longrightarrow>
          c = length (heap s)
          \<and> heap (snd r) = heap s @ [\<lparr>client_app = a, client_project_id = PStr p\<rparr>])
     \<and> (\<forall>ys. fst (auth_for_project (foldl (step env) (snd r) ys) (PStr p)) = Inr c
          \<and> heap (snd (auth_for_project (foldl (step env) (snd r) ys) (PStr p)))
              = heap (foldl (step env) (snd r) ys)
          \<and> project_clients (snd (auth_for_project (foldl (step env) (snd r) ys) (PStr p)))
              = project_clients (foldl (step env) (snd r) ys)
          \<and> heap (foldl (step env) (snd r) ys) ! c
              = \<lparr>client_app = a, client_project_id = PStr p\<rparr>)
     \<and> (\<forall>ys q. q \<noteq> [] \<and> q \<noteq> p \<longrightarrow>
          fst (auth_for_project (foldl (step env) (snd r) ys) (PStr q)) \<noteq> Inr c)
     \<and> (\<forall>k d x. project_clients s k = Some d \<longrightarrow> project_clients (step env s x) k = Some d)"
proof -
  have inv_s: "service_inv s" and app_s: "app s = a"
    using assms(2) by (simp_all add: reachable_inv reachable_app)
  from auth_for_project_entry [OF assms(1), of s]
  obtain c where c: "fst r = Inr c" "project_clients (snd r) (PStr p) = Some c"
    unfolding assms(3) by blast
  have inv_r: "service_inv (snd r)"
    using inv_s assms(3) by (simp add: auth_for_project_inv)
  have app_r: "app (snd r) = a"
    using auth_for_project_extends [of s "PStr p"] app_s assms(3) by (simp add: extends_def)
  have fresh: "c = length (heap s)
      \<and> heap (snd r) = heap s @ [\<lparr>client_app = a, client_project_id = PStr p\<rparr>]"
    if "project_clients s (PStr p) = None"
    using that assms(1,3) c(1) app_s by (simp add: auth_for_project_miss)
  have later: "fst (auth_for_project t (PStr p)) = Inr c
      \<and> heap (snd (auth_for_project t (PStr p))) = heap t
      \<and> project_clients (snd (auth_for_project t (PStr p))) = project_clients t
      \<and> heap t ! c = \<lparr>client_app = a, client_project_id = PStr p\<rparr>"
    and other: "q \<noteq> [] \<and> q \<noteq> p \<longrightarrow> fst (auth_for_project t (PStr q)) \<noteq> Inr c"
    if t: "t = foldl (step env) (snd r) ys" for t ys q
  proof -
    have ext: "extends (snd r) t" using t by (simp add: foldl_step_extends)
    have inv_t: "service_inv t" using t inv_r by (simp add: foldl_step_inv)
    from ext c(2) have hit: "project_clients t (PStr p) = Some c" by (simp add: extends_def)
    from ext app_r have "app t = a" by (simp add: extends_def)
    with inv_t hit have "heap t ! c = \<lparr>client_app = a, client_project_id = PStr p\<rparr>"
      by (simp add: service_inv_def)
    with hit assms(1) show "fst (auth_for_project t (PStr p)) = Inr c
      \<and> heap (snd (auth_for_project t (PStr p))) = heap t
      \<and> project_clients (snd (auth_for_project t (PStr p))) = project_clients t
      \<and> heap t ! c = \<lparr>client_app = a, client_project_id = PStr p\<rparr>"
      by (simp add: auth_for_project_hit)
    show "q \<noteq> [] \<and> q \<noteq> p \<longrightarrow> fst (auth_for_project t (PStr q)) \<noteq> Inr c"
      using auth_for_project_other [OF inv_t hit] by blast
  qed
  have keep: "project_clients (step env s x) k = Some d" if "project_clients s k = Some d"
    for k d x
    using step_extends [of s env x] that by (simp add: extends_def)
  show ?thesis
  proof (intro exI [of _ c] conjI allI impI)
    show "fst r = Inr c" by (rule c(1))
    show "project_clients (snd r) (PStr p) = Some c" by (rule c(2))
  next
    assume "project_clients s (PStr p) = None"
    then show "c = length (heap s)"
      and "heap (snd r) = heap s @ [\<lparr>client_app = a, client_project_id = PStr p\<rparr>]"
      using fresh by simp_all
  next
    fix ys
    show "fst (auth_for_project (foldl (step env) (snd r) ys) (PStr p)) = Inr c"
      and "heap (snd (auth_for_project (foldl (step env) (snd r) ys) (PStr p)))
              = heap (foldl (step env) (snd r) ys)"
      and "project_clients (snd (auth_for_project (foldl (step env) (snd r) ys) (PStr p)))
              = project_clients (foldl (step env) (snd r) ys)"
      and "heap (foldl (step env) (snd r) ys) ! c
              = \<lparr>client_app = a, client_project_id = PStr p\<rparr>"
      using later [OF refl, of ys] by simp_all
  next
    fix ys q
    assume "q \<noteq> [] \<and> q \<noteq> p"
    then show "fst (auth_for_project (foldl (step env) (snd r) ys) (PStr q)) \<noteq> Inr c"
      using other [OF refl, of q ys] by simp
  next
    fix k d x
    assume "project_clients s k = Some d"
    then show "project_clients (step env s x) k = Some d" by (rule keep)
  qed
qed


theorem auth_for_project_cached_witness:
  "fst (auth_for_project
         (ProjectManagementService_init ''6.0'' \<lparr>app_credential = ''c'', app_project_id = Some ''p0''\<rparr>)
         (PStr ''p1'')) = Inr 0
   \<and> fst (auth_for_project
         (foldl (step stub_ok)
            (snd (auth_for_project
               (ProjectManagementService_init ''6.0'' \<lparr>app_credential = ''c'', app_project_id = Some ''p0''\<rparr>)
               (PStr ''p1'')))
            [Get_project, Auth_for_project (PStr ''p2''), Update_project PNone])
         (PStr ''p1'')) = Inr 0
   \<and> fst (auth_for_project
         (foldl (step stub_ok)
            (snd (auth_for_project
               (ProjectManagementService_init ''6.0'' \<lparr>app_credential = ''c'', app_project_id = Some ''p0''\<rparr>)
               (PStr ''p1'')))
            [Get_project, Auth_for_project (PStr ''p2''), Update_project PNone])
         (PStr ''p2'')) = Inr 1"
  using auth_for_project_cached [OF _ refl refl, of "''p1''" stub_ok "''6.0''"
      "\<lparr>app_credential = ''c'', app_project_id = Some ''p0''\<rparr>" "[]"]
  by (simp add: auth_for_project_def step_def get_project_def update_project_def stub_ok_def
      ProjectManagementService_init_def Let_def)

subsection \<open>Concurrent callers: one thread alone\<close>

lemma set_pc_simps [simp]:
  "service (set_pc i q c) = service c"
  "lock (set_pc i q c) = lock c"
  "length (threads (set_pc i q c)) = length (threads c)"
  by (simp_all add: set_pc_def)

lemma set_pc_nth:
  "j < length (threads c) \<Longrightarrow>
     threads (set_pc i q c) ! j = (if j = i then (fst (threads c ! i), q) else threads c ! j)"
  by (simp add: set_pc_def nth_list_update)

lemma pc_ok_events [simp]: "pc_ok s0 pid (s\<lparr>events := ev\<rparr>) q = pc_ok s0 pid s q"
  by (simp add: pc_ok_def split: pc.split)

lemma pc_ok_outside: "\<not> in_with q \<Longrightarrow> \<not> is_Done q \<Longrightarrow> pc_ok s0 pid s q"
  by (cases q) (simp_all add: pc_ok_def)

text \<open>
  A single thread, run for its six statements with the lock free, ends with the result
  and the service state that \<open>auth_for_project\<close> gives: the statement-by-statement
  model and the sequential one agree.
\<close>

lemma thread_alone:
  "exec \<lparr>service = s, lock = None, threads = [(project_id, At_check)]\<rparr> [0, 0, 0, 0, 0, 0]
     = \<lparr>service = snd (auth_for_project s project_id), lock = None,
        threads = [(project_id, Done (fst (auth_for_project s project_id)))]\<rparr>"
proof (cases "isinstance_str project_id \<and> truthy project_id")
  case False
  then show ?thesis
    by (simp add: thread_step_def set_pc_def auth_for_project_invalid)
next
  case True
  show ?thesis
  proof (cases "project_clients s project_id")
    case None
    with True show ?thesis
      by (simp add: thread_step_def set_pc_def auth_for_project_miss)
  next
    case (Some cl)
    with True show ?thesis
      by (simp add: thread_step_def set_pc_def auth_for_project_hit)
  qed
qed

lemma pc_ok_simps [simp]:
  "pc_ok s0 pid s At_check"
  "pc_ok s0 pid s At_acquire"
  "pc_ok s0 pid s At_lookup \<longleftrightarrow> (project_clients s pid = None \<longrightarrow> heap s = heap s0)"
  "pc_ok s0 pid s At_construct \<longleftrightarrow> project_clients s pid = None \<and> heap s = heap s0"
  "pc_ok s0 pid s (At_store cl) \<longleftrightarrow>
     cl = length (heap s0) \<and> project_clients s pid = None
     \<and> heap s = heap s0 @ [\<lparr>client_app = app s0, client_project_id = pid\<rparr>]"
  "pc_ok s0 pid s (At_return cl) \<longleftrightarrow>
     cl = length (heap s0) \<and> project_clients s pid = Some cl
     \<and> heap s = heap s0 @ [\<lparr>client_app = app s0, client_project_id = pid\<rparr>]"
  "pc_ok s0 pid s (Done r) \<longleftrightarrow>
     r = Inr (length (heap s0)) \<and> project_clients s pid = Some (length (heap s0))
     \<and> heap s = heap s0 @ [\<lparr>client_app = app s0, client_project_id = pid\<rparr>]"
  by (simp_all add: pc_ok_def)

subsection \<open>Concurrent callers: the invariant\<close>

lemma conc_inv_start:
  "project_clients s0 pid = None \<Longrightarrow> conc_inv s0 pid n (start s0 pid n)"
  by (simp add: conc_inv_def start_def)

lemma conc_inv_check:
  assumes inv: "conc_inv s0 pid n c" and i: "i < n" and q: "snd (threads c ! i) = At_check"
  shows "conc_inv s0 pid n (set_pc i At_acquire c)"
  using assms unfolding conc_inv_def
  by (auto simp: set_pc_nth split: option.splits)

lemma conc_inv_acquire:
  assumes inv: "conc_inv s0 pid n c" and i: "i < n" and q: "snd (threads c ! i) = At_acquire"
    and l: "lock c = None"
  shows "conc_inv s0 pid n (set_pc i At_lookup
     (c\<lparr>lock := Some (i, 1), service := (service c)\<lparr>events := events (service c) @ [Acquire]\<rparr>\<rparr>))"
  using assms unfolding conc_inv_def
  by (auto simp: set_pc_nth split: option.splits)

lemma conc_inv_lookup_hit:
  assumes inv: "conc_inv s0 pid n c" and i: "i < n" and q: "snd (threads c ! i) = At_lookup"
    and l: "project_clients (service c) pid = Some cl"
  shows "conc_inv s0 pid n (set_pc i (At_return cl) c)"
  using assms unfolding conc_inv_def
  by (auto simp: set_pc_nth split: option.splits)

lemma conc_inv_lookup_miss:
  assumes inv: "conc_inv s0 pid n c" and i: "i < n" and q: "snd (threads c ! i) = At_lookup"
    and l: "project_clients (service c) pid = None"
  shows "conc_inv s0 pid n (set_pc i At_construct c)"
  using assms unfolding conc_inv_def
  by (auto simp: set_pc_nth split: option.splits)

lemma pc_ok_other:
  "\<not> in_with q \<Longrightarrow> pc_ok s0 pid s q \<Longrightarrow> project_clients s pid = None \<Longrightarrow> pc_ok s0 pid s' q"
  by (cases q) simp_all

lemma holder_is_inside:
  assumes inv: "conc_inv s0 pid n c" and i: "i < n" and q: "in_with (snd (threads c ! i))"
  shows "lock c = Some (i, 1)" and "\<And>j. j < n \<Longrightarrow> j \<noteq> i \<Longrightarrow> \<not> in_with (snd (threads c ! j))"
  using assms unfolding conc_inv_def by (auto split: option.splits)

lemma conc_inv_construct:
  assumes inv: "conc_inv s0 pid n c" and i: "i < n" and q: "snd (threads c ! i) = At_construct"
  shows "conc_inv s0 pid n (set_pc i (At_store (length (heap (service c))))
     (c\<lparr>service := (service c)\<lparr>heap := heap (service c)
          @ [\<lparr>client_app = app (service c), client_project_id = fst (threads c ! i)\<rparr>]\<rparr>\<rparr>))"
    (is "conc_inv s0 pid n ?c'")
proof -
  have len: "length (threads c) = n" and app: "app (service c) = app s0"
    and fst: "\<And>j. j < n \<Longrightarrow> fst (threads c ! j) = pid"
    and ok: "\<And>j. j < n \<Longrightarrow> pc_ok s0 pid (service c) (snd (threads c ! j))"
    using inv by (simp_all add: conc_inv_def)
  from ok [OF i] q have none: "project_clients (service c) pid = None"
    and heap: "heap (service c) = heap s0" by simp_all
  have inside: "in_with (snd (threads c ! i))" using q by simp
  note l = holder_is_inside [OF inv i inside]
  have ok': "pc_ok s0 pid (service ?c') (snd (threads ?c' ! j))" if j: "j < n" for j
  proof (cases "j = i")
    case True
    with i len none heap app fst [OF i] show ?thesis by (simp add: set_pc_nth)
  next
    case False
    with j len have "snd (threads ?c' ! j) = snd (threads c ! j)" by (simp add: set_pc_nth)
    with pc_ok_other [OF l(2) [OF j False] ok [OF j] none] show ?thesis by simp
  qed
  have fst': "fst (threads ?c' ! j) = pid" if j: "j < n" for j
    using j len fst by (simp add: set_pc_nth)
  have lock': "\<forall>j<n. in_with (snd (threads ?c' ! j)) \<longleftrightarrow> j = i"
    using len l(2) by (auto simp: set_pc_nth)
  show ?thesis
    unfolding conc_inv_def
    using len app ok' fst' lock' l(1) i none heap fst [OF i] by simp
qed

lemma conc_inv_store:
  assumes inv: "conc_inv s0 pid n c" and i: "i < n" and q: "snd (threads c ! i) = At_store cl"
  shows "conc_inv s0 pid n (set_pc i (At_return cl)
     (c\<lparr>service := (service c)\<lparr>project_clients :=
          (project_clients (service c))(fst (threads c ! i) \<mapsto> cl)\<rparr>\<rparr>))"
    (is "conc_inv s0 pid n ?c'")
proof -
  have len: "length (threads c) = n" and app: "app (service c) = app s0"
    and fst: "\<And>j. j < n \<Longrightarrow> fst (threads c ! j) = pid"
    and ok: "\<And>j. j < n \<Longrightarrow> pc_ok s0 pid (service c) (snd (threads c ! j))"
    using inv by (simp_all add: conc_inv_def)
  from ok [OF i] q have cl: "cl = length (heap s0)"
    and none: "project_clients (service c) pid = None"
    and heap: "heap (service c) = heap s0 @ [\<lparr>client_app = app s0, client_project_id = pid\<rparr>]"
    by simp_all
  have inside: "in_with (snd (threads c ! i))" using q by simp
  note l = holder_is_inside [OF inv i inside]
  have ok': "pc_ok s0 pid (service ?c') (snd (threads ?c' ! j))" if j: "j < n" for j
  proof (cases "j = i")
    case True
    with i len cl heap fst [OF i] show ?thesis by (simp add: set_pc_nth)
  next
    case False
    with j len have "snd (threads ?c' ! j) = snd (threads c ! j)" by (simp add: set_pc_nth)
    with pc_ok_other [OF l(2) [OF j False] ok [OF j] none] show ?thesis by simp
  qed
  have fst': "fst (threads ?c' ! j) = pid" if j: "j < n" for j
    using j len fst by (simp add: set_pc_nth)
  have lock': "\<forall>j<n. in_with (snd (threads ?c' ! j)) \<longleftrightarrow> j = i"
    using len l(2) by (auto simp: set_pc_nth)
  show ?thesis
    unfolding conc_inv_def
    using len app ok' fst' lock' l(1) i cl heap fst [OF i] by simp
qed

lemma conc_inv_return:
  assumes inv: "conc_inv s0 pid n c" and i: "i < n" and q: "snd (threads c ! i) = At_return cl"
  shows "conc_inv s0 pid n (set_pc i (Done (Inr cl))
     (c\<lparr>lock := None, service := (service c)\<lparr>events := events (service c) @ [Release]\<rparr>\<rparr>))"
    (is "conc_inv s0 pid n ?c'")
proof -
  have len: "length (threads c) = n" and app: "app (service c) = app s0"
    and fst: "\<And>j. j < n \<Longrightarrow> fst (threads c ! j) = pid"
    and ok: "\<And>j. j < n \<Longrightarrow> pc_ok s0 pid (service c) (snd (threads c ! j))"
    using inv by (simp_all add: conc_inv_def)
  from ok [OF i] q have cl: "cl = length (heap s0)"
    and some: "project_clients (service c) pid = Some cl"
    and heap: "heap (service c) = heap s0 @ [\<lparr>client_app = app s0, client_project_id = pid\<rparr>]"
    by simp_all
  have inside: "in_with (snd (threads c ! i))" using q by simp
  note l = holder_is_inside [OF inv i inside]
  have ok': "pc_ok s0 pid (service ?c') (snd (threads ?c' ! j))" if j: "j < n" for j
    using j len ok [OF j] cl some heap by (simp add: set_pc_nth)
  have fst': "fst (threads ?c' ! j) = pid" if j: "j < n" for j
    using j len fst by (simp add: set_pc_nth)
  have lock': "\<forall>j<n. \<not> in_with (snd (threads ?c' ! j))"
    using len l(2) by (auto simp: set_pc_nth)
  show ?thesis
    unfolding conc_inv_def
    using len app ok' fst' lock' cl some heap by simp
qed

lemma thread_step_in_range: "thread_step i c = Some c' \<Longrightarrow> i < length (threads c)"
  by (simp add: thread_step_def split: if_splits)

lemma conc_inv_thread_step:
  assumes inv: "conc_inv s0 pid n c" and valid: "isinstance_str pid" "truthy pid"
    and st: "thread_step i c = Some c'"
  shows "conc_inv s0 pid n c'"
proof -
  have len: "length (threads c) = n" using inv by (simp add: conc_inv_def)
  with thread_step_in_range [OF st] have i: "i < n" by simp
  have arg: "fst (threads c ! i) = pid" using inv i by (simp add: conc_inv_def)
  have il: "\<not> length (threads c) \<le> i" using i len by simp
  show ?thesis
  proof (cases "snd (threads c ! i)")
    case At_check
    with st il arg valid have "c' = set_pc i At_acquire c"
      by (simp add: thread_step_def Let_def)
    with conc_inv_check [OF inv i At_check] show ?thesis by simp
  next
    case At_acquire
    have free: "lock c = None"
    proof (cases "lock c")
      case None
      then show ?thesis .
    next
      case (Some l)
      obtain ow k where l: "l = (ow, k)" by (cases l)
      with Some inv have "\<forall>j<n. in_with (snd (threads c ! j)) \<longleftrightarrow> j = ow" and "ow < n"
        by (simp_all add: conc_inv_def)
      with i At_acquire have "ow \<noteq> i" by auto
      with st il At_acquire Some l show ?thesis by (simp add: thread_step_def Let_def)
    qed
    with st il At_acquire have "c' = set_pc i At_lookup
        (c\<lparr>lock := Some (i, 1), service := (service c)\<lparr>events := events (service c) @ [Acquire]\<rparr>\<rparr>)"
      by (simp add: thread_step_def Let_def)
    with conc_inv_acquire [OF inv i At_acquire free] show ?thesis by simp
  next
    case At_lookup
    show ?thesis
    proof (cases "project_clients (service c) pid")
      case None
      with st il At_lookup arg have "c' = set_pc i At_construct c"
        by (simp add: thread_step_def Let_def)
      with conc_inv_lookup_miss [OF inv i At_lookup None] show ?thesis by simp
    next
      case (Some cl)
      with st il At_lookup arg have "c' = set_pc i (At_return cl) c"
        by (simp add: thread_step_def Let_def)
      with conc_inv_lookup_hit [OF inv i At_lookup Some] show ?thesis by simp
    qed
  next
    case At_construct
    with st il have "c' = set_pc i (At_store (length (heap (service c))))
        (c\<lparr>service := (service c)\<lparr>heap := heap (service c)
          @ [\<lparr>client_app = app (service c), client_project_id = fst (threads c ! i)\<rparr>]\<rparr>\<rparr>)"
      by (simp add: thread_step_def Let_def)
    with conc_inv_construct [OF inv i At_construct] show ?thesis by simp
  next
    case (At_store cl)
    with st il have "c' = set_pc i (At_return cl)
        (c\<lparr>service := (service c)\<lparr>project_clients :=
          (project_clients (service c))(fst (threads c ! i) \<mapsto> cl)\<rparr>\<rparr>)"
      by (simp add: thread_step_def Let_def)
    with conc_inv_store [OF inv i At_store] show ?thesis by simp
  next
    case (At_return cl)
    then have "in_with (snd (threads c ! i))" by simp
    from holder_is_inside(1) [OF inv i this] have "lock c = Some (i, 1)" .
    with st il At_return have "c' = set_pc i (Done (Inr cl))
        (c\<lparr>lock := None, service := (service c)\<lparr>events := events (service c) @ [Release]\<rparr>\<rparr>)"
      by (simp add: thread_step_def Let_def)
    with conc_inv_return [OF inv i At_return] show ?thesis by simp
  next
    case (Done r)
    with st il show ?thesis by (simp add: thread_step_def Let_def)
  qed
qed

lemma conc_inv_exec:
  "conc_inv s0 pid n c \<Longrightarrow> isinstance_str pid \<Longrightarrow> truthy pid \<Longrightarrow>
     conc_inv s0 pid n (exec c sched)"
proof (induction sched arbitrary: c)
  case Nil
  then show ?case by simp
next
  case (Cons i sched)
  show ?case
  proof (cases "thread_step i c")
    case None
    with Cons show ?thesis by simp
  next
    case (Some c')
    with Cons.prems have "conc_inv s0 pid n c'" by (simp add: conc_inv_thread_step)
    with Cons Some show ?thesis by simp
  qed
qed

subsection \<open>Concurrent callers: progress\<close>

lemma remaining_update:
  assumes "i < length ts" and "remaining q' < remaining (snd (ts ! i))"
  shows "sum_list (map (\<lambda>t. remaining (snd t)) (ts[i := (a, q')]))
      < sum_list (map (\<lambda>t. remaining (snd t)) ts)"
proof -
  let ?ns = "map (\<lambda>t. remaining (snd t)) ts"
  have "map (\<lambda>t. remaining (snd t)) (ts[i := (a, q')]) = ?ns[i := remaining q']"
    by (simp add: map_update)
  moreover have "sum_list (?ns[i := remaining q']) = sum_list ?ns + remaining q' - ?ns ! i"
    using assms(1) by (simp add: sum_list_update)
  moreover have "?ns ! i \<le> sum_list ?ns"
    using elem_le_sum_list [of i ?ns] assms(1) by simp
  moreover have "remaining q' < ?ns ! i" using assms by simp
  ultimately show ?thesis by simp
qed

lemma thread_step_threads:
  assumes "thread_step i c = Some c'"
  shows "threads c' = (threads c)[i := (fst (threads c ! i), snd (threads c' ! i))]
         \<and> remaining (snd (threads c' ! i)) < remaining (snd (threads c ! i))"
proof -
  have i: "i < length (threads c)" using assms by (rule thread_step_in_range)
  show ?thesis
  proof (cases "snd (threads c ! i)")
    case At_acquire
    with assms i show ?thesis
      by (auto simp: thread_step_def set_pc_def Let_def split: option.splits if_splits)
  next
    case At_lookup
    with assms i show ?thesis
      by (auto simp: thread_step_def set_pc_def Let_def split: option.splits if_splits)
  qed (use assms i in \<open>auto simp: thread_step_def set_pc_def Let_def split: if_splits\<close>)
qed

lemma thread_step_remaining:
  assumes "thread_step i c = Some c'"
  shows "total_remaining c' < total_remaining c"
proof -
  have i: "i < length (threads c)" using assms by (rule thread_step_in_range)
  from thread_step_threads [OF assms]
  have q': "threads c' = (threads c)[i := (fst (threads c ! i), snd (threads c' ! i))]"
    and less: "remaining (snd (threads c' ! i)) < remaining (snd (threads c ! i))"
    by simp_all
  from remaining_update [OF i less, of "fst (threads c ! i)"] q' show ?thesis
    by (simp add: total_remaining_def)
qed

lemma inside_can_step:
  "i < length (threads c) \<Longrightarrow> in_with (snd (threads c ! i)) \<Longrightarrow> \<exists>c'. thread_step i c = Some c'"
  by (cases "snd (threads c ! i)")
    (simp_all add: thread_step_def Let_def split: option.split)

lemma outside_can_step:
  "i < length (threads c) \<Longrightarrow> \<not> in_with (snd (threads c ! i)) \<Longrightarrow>
   \<not> is_Done (snd (threads c ! i)) \<Longrightarrow> lock c = None \<Longrightarrow> \<exists>c'. thread_step i c = Some c'"
  by (cases "snd (threads c ! i)") (simp_all add: thread_step_def Let_def)

lemma conc_progress:
  assumes inv: "conc_inv s0 pid n c" and nd: "\<not> all_done c"
  shows "\<exists>i c'. thread_step i c = Some c'"
proof (cases "lock c")
  case None
  have len: "length (threads c) = n" using inv by (simp add: conc_inv_def)
  from nd obtain j where j: "j < n" "\<not> is_Done (snd (threads c ! j))"
    using len by (auto simp: all_done_def list_all_length)
  from inv None j(1) have "\<not> in_with (snd (threads c ! j))" by (simp add: conc_inv_def)
  with outside_can_step [of j c] j len None show ?thesis by blast
next
  case (Some l)
  obtain ow k where l: "l = (ow, k)" by (cases l)
  with inv Some have "ow < n" "in_with (snd (threads c ! ow))" "length (threads c) = n"
    by (simp_all add: conc_inv_def)
  with inside_can_step [of ow c] show ?thesis by blast
qed

lemma exec_append: "exec c (xs @ ys) = exec (exec c xs) ys"
  by (induction xs arbitrary: c) simp_all

lemma conc_completion:
  assumes "conc_inv s0 pid n c" and "isinstance_str pid" and "truthy pid"
  shows "\<exists>sched. all_done (exec c sched)"
  using assms
proof (induction "total_remaining c" arbitrary: c rule: less_induct)
  case less
  show ?case
  proof (cases "all_done c")
    case True
    then have "all_done (exec c [])" by simp
    then show ?thesis by blast
  next
    case False
    from conc_progress [OF less.prems(1) False]
    obtain i c' where st: "thread_step i c = Some c'" by blast
    have "conc_inv s0 pid n c'"
      using conc_inv_thread_step [OF less.prems(1) less.prems(2) less.prems(3) st] .
    with less.hyps [OF thread_step_remaining [OF st]] less.prems(2,3)
    obtain sched where "all_done (exec c' sched)" by blast
    with st have "all_done (exec c (i # sched))" by simp
    then show ?thesis by blast
  qed
qed

lemma conc_inv_results:
  assumes inv: "conc_inv s0 pid n c"
  shows "length (heap (service c)) \<le> length (heap s0) + 1"
    and "\<And>i r. i < n \<Longrightarrow> snd (threads c ! i) = Done r \<Longrightarrow> r = Inr (length (heap s0))"
    and "\<And>i j. i < n \<Longrightarrow> j < n \<Longrightarrow> in_with (snd (threads c ! i)) \<Longrightarrow>
           in_with (snd (threads c ! j)) \<Longrightarrow> i = j"
proof -
  show "length (heap (service c)) \<le> length (heap s0) + 1"
    using inv by (auto simp: conc_inv_def split: option.splits)
  show "r = Inr (length (heap s0))" if "i < n" "snd (threads c ! i) = Done r" for i r
  proof -
    from inv that(1) have "pc_ok s0 pid (service c) (snd (threads c ! i))"
      by (simp add: conc_inv_def)
    with that(2) show ?thesis by simp
  qed
  show "i = j" if "i < n" "j < n" "in_with (snd (threads c ! i))" "in_with (snd (threads c ! j))"
    for i j
    using holder_is_inside(2) [OF inv that(1) that(3) that(2)] that(4) by blast
qed

lemma conc_inv_all_done:
  assumes inv: "conc_inv s0 pid n c" and n: "0 < n" and d: "all_done c"
  shows "heap (service c) = heap s0 @ [\<lparr>client_app = app s0, client_project_id = pid\<rparr>]"
    and "project_clients (service c) pid = Some (length (heap s0))"
    and "lock c = None"
proof -
  have len: "length (threads c) = n" using inv by (simp add: conc_inv_def)
  have fin: "is_Done (snd (threads c ! i))" if "i < n" for i
    using d len that by (simp add: all_done_def list_all_length)
  from fin [OF n] obtain r where r: "snd (threads c ! 0) = Done r"
    by (cases "snd (threads c ! 0)") simp_all
  from inv n have "pc_ok s0 pid (service c) (snd (threads c ! 0))" by (simp add: conc_inv_def)
  with r show "heap (service c) = heap s0 @ [\<lparr>client_app = app s0, client_project_id = pid\<rparr>]"
    and "project_clients (service c) pid = Some (length (heap s0))" by simp_all
  show "lock c = None"
  proof (cases "lock c")
    case None
    then show ?thesis .
  next
    case (Some l)
    obtain ow k where l: "l = (ow, k)" by (cases l)
    with inv Some have ow: "ow < n" "in_with (snd (threads c ! ow))"
      by (simp_all add: conc_inv_def)
    with fin [OF ow(1)] show ?thesis by (cases "snd (threads c ! ow)") simp_all
  qed
qed

text \<open>
  C9. Any number \<open>n > 0\<close> of threads call \<open>auth_for_project\<close> with the same non-empty
  string, which has no entry yet, and the scheduler interleaves their statements in any
  order. Then at every moment at most one thread is inside the \<open>with\<close> block and at most
  one client has been constructed; every thread that has returned has returned that one
  client; when all threads have returned, exactly one client has been constructed and
  stored and the lock is free; and from every moment the calls can all be run to their
  end.
\<close>

theorem concurrent_auth_for_project:
  assumes "p \<noteq> []" and "project_clients s0 (PStr p) = None" and "0 < n"
    and "c = exec (start s0 (PStr p) n) sched"
  shows "length (heap (service c)) \<le> length (heap s0) + 1
     \<and> (\<forall>i<n. \<forall>j<n. in_with (snd (threads c ! i)) \<and> in_with (snd (threads c ! j)) \<longrightarrow> i = j)
     \<and> (\<forall>i<n. \<forall>r. snd (threads c ! i) = Done r \<longrightarrow> r = Inr (length (heap s0)))
     \<and> (all_done c \<longrightarrow>
          heap (service c) = heap s0 @ [\<lparr>client_app = app s0, client_project_id = PStr p\<rparr>]
          \<and> project_clients (service c) (PStr p) = Some (length (heap s0))
          \<and> lock c = None)
     \<and> (\<exists>sched'. all_done (exec c sched'))"
proof -
  have valid: "isinstance_str (PStr p)" "truthy (PStr p)" using assms(1) by simp_all
  have inv: "conc_inv s0 (PStr p) n c"
    unfolding assms(4)
    using conc_inv_exec [OF conc_inv_start [OF assms(2)] valid] .
  show ?thesis
  proof (intro conjI allI impI)
    show "length (heap (service c)) \<le> length (heap s0) + 1"
      by (rule conc_inv_results(1) [OF inv])
  next
    fix i j
    assume "i < n" "j < n" "in_with (snd (threads c ! i)) \<and> in_with (snd (threads c ! j))"
    then show "i = j" using conc_inv_results(3) [OF inv] by blast
  next
    fix i r
    assume "i < n" "snd (threads c ! i) = Done r"
    then show "r = Inr (length (heap s0))" by (rule conc_inv_results(2) [OF inv])
  next
    assume d: "all_done c"
    show "heap (service c) = heap s0 @ [\<lparr>client_app = app s0, client_project_id = PStr p\<rparr>]"
      and "project_clients (service c) (PStr p) = Some (length (heap s0))"
      and "lock c = None"
      using conc_inv_all_done [OF inv assms(3) d] by simp_all
  next
    show "\<exists>sched'. all_done (exec c sched')"
      by (rule conc_completion [OF inv valid])
  qed
qed

theorem concurrent_auth_for_project_witness:
  "map snd (threads (exec
       (start (ProjectManagementService_init ''6.0'' \<lparr>app_credential = ''c'', app_project_id = Some ''p0''\<rparr>)
          (PStr ''p1'') 2)
       [0, 1, 0, 1, 0, 0, 0, 0, 1, 1, 1]))
     = [Done (Inr 0), Done (Inr 0)]
   \<and> heap (service (exec
       (start (ProjectManagementService_init ''6.0'' \<lparr>app_credential = ''c'', app_project_id = Some ''p0''\<rparr>)
          (PStr ''p1'') 2)
       [0, 1, 0, 1, 0, 0, 0, 0, 1, 1, 1]))
     = [\<lparr>client_app = \<lparr>app_credential = ''c'', app_project_id = Some ''p0''\<rparr>,
         client_project_id = PStr ''p1''\<rparr>]
   \<and> lock (exec
       (start (ProjectManagementService_init ''6.0'' \<lparr>app_credential = ''c'', app_project_id = Some ''p0''\<rparr>)
          (PStr ''p1'') 2)
       [0, 1, 0, 1, 0, 0, 0, 0, 1, 1, 1]) = None"
  using concurrent_auth_for_project [OF _ _ _ refl, of "''p1''"
      "ProjectManagementService_init ''6.0'' \<lparr>app_credential = ''c'', app_project_id = Some ''p0''\<rparr>"
      2 "[0, 1, 0, 1, 0, 0, 0, 0, 1, 1, 1]"]
  by (simp add: start_def thread_step_def set_pc_def ProjectManagementService_init_def
      all_done_def Let_def numeral_2_eq_2)

end
